theory Spec2Isabelle
  imports Main
begin

section \<open>The NonMessenger broker (src/server/server.js), embedded in HOL\<close>

text \<open>
  The broker is the class \<open>NonMessengerServer\<close>. Its state is three containers
  (\<open>messagePool\<close>, \<open>userSessions\<close>, \<open>serverNodes\<close>); its handlers mutate them and
  write to sockets and to peer nodes. Here every handler is a function from the state to
  the response and the new state. What a handler writes to the outside is appended to a
  log kept in the state (\<open>sent\<close>, \<open>fetched\<close>, \<open>closed\<close>), so that "nothing was sent" is
  a statement about the state. \<open>Date.now()\<close> is the parameter \<open>now\<close> (milliseconds), and
  whether a write to a socket throws is a parameter of the call (the transport).
  One handler runs at a time: Node's event loop runs each of them to its next
  \<open>await\<close>, and every change a handler makes to the pool and to the sessions lies before
  its first suspension that waits for I/O.
\<close>

subsection \<open>JavaScript values\<close>

text \<open>
  A field of a parsed JSON body. \<open>JUndefined\<close> is what reading an absent property
  gives. \<open>JObj r\<close> is an object or array, known by its reference \<open>r\<close> only: the broker
  never looks inside one. JSON numbers are taken to be integers.
  On these values \<open>===\<close>, and the key comparison of \<open>Map\<close>, is equality.
\<close>

datatype jsval = JUndefined | JNull | JBool bool | JNum int | JStr string | JObj nat

text \<open>\<open>!v\<close> is \<open>\<not> truthy v\<close>.\<close>

fun truthy :: "jsval \<Rightarrow> bool" where
  "truthy JUndefined = False"
| "truthy JNull = False"
| "truthy (JBool b) = b"
| "truthy (JNum n) = (n \<noteq> 0)"
| "truthy (JStr s) = (s \<noteq> [])"
| "truthy (JObj r) = True"

subsection \<open>The JavaScript \<open>Map\<close>\<close>

text \<open>
  A \<open>Map\<close> iterates in insertion order, so it is a list of entries with distinct keys.
  \<open>set\<close> on a key that is present replaces the value where it stands; on a new key it
  appends. \<open>delete\<close> returns whether the key was present (\<open>map_has\<close> before it).
\<close>

type_synonym ('k, 'v) jsmap = "('k \<times> 'v) list"

fun map_set :: "'k \<Rightarrow> 'v \<Rightarrow> ('k, 'v) jsmap \<Rightarrow> ('k, 'v) jsmap" where
  "map_set k v [] = [(k, v)]"
| "map_set k v ((k', v') # es) = (if k' = k then (k, v) # es else (k', v') # map_set k v es)"

definition map_delete :: "'k \<Rightarrow> ('k, 'v) jsmap \<Rightarrow> ('k, 'v) jsmap" where
  "map_delete k es = filter (\<lambda>e. fst e \<noteq> k) es"

definition map_has :: "'k \<Rightarrow> ('k, 'v) jsmap \<Rightarrow> bool" where
  "map_has k es = (k \<in> set (map fst es))"

definition map_get :: "('k, 'v) jsmap \<Rightarrow> 'k \<Rightarrow> 'v option" where
  "map_get es k = map_of es k"

definition map_ok :: "('k, 'v) jsmap \<Rightarrow> bool" where
  "map_ok es = distinct (map fst es)"

subsection \<open>Data\<close>

text \<open>The object built at lines 151-159; \<open>id_msg\<close> is its property \<open>id\<close>.\<close>

record message =
  id_msg :: jsval
  recipientContactCode :: jsval
  encryptedMessage :: jsval
  timestamp :: int
  ttl :: int
  attempts :: nat
  maxAttempts :: nat

text \<open>A socket is named by its \<open>sessionId\<close> property, set once on connection.\<close>

type_synonym ws = string

record session =
  ws :: ws
  contactCode :: string
  lastSeen :: int
  status :: string

text \<open>
  An entry of \<open>serverNodes\<close>. That container is a \<open>Set\<close> of objects, and a \<open>Set\<close>
  compares objects by reference: \<open>ref\<close> is the reference of the object, given when the
  object literal is evaluated.
\<close>

record node =
  ref :: nat
  nodeUrl :: jsval
  publicKey :: jsval
  lastSeen_node :: int

text \<open>
  A parsed inbound frame: the three properties the broker reads, and the rest of the
  text, which it only passes on.
\<close>

record ws_message =
  type_m :: jsval
  contactCode_m :: jsval
  recipientContactCode_m :: jsval
  rest_m :: string

text \<open>
  \<open>Invalid\<close> is data on which \<open>JSON.parse\<close> throws or gives \<open>null\<close> (reading
  \<open>.type\<close> of it throws inside the same \<open>try\<close>).
\<close>

datatype ws_data = Invalid | Parsed ws_message

text \<open>What the broker writes to a socket.\<close>

datatype frame =
    RegistrationSuccess string
  | NewMessage jsval jsval int
  | ErrorFrame string
  | Verbatim ws_message

record server =
  messagePool :: "(jsval, message) jsmap"
  userSessions :: "(string, session) jsmap"
  serverNodes :: "node list"
  nextRef :: nat
  clients :: "ws list"
  sent :: "(ws \<times> frame) list"
  fetched :: "(jsval \<times> message) list"
  closed :: "ws list"

text \<open>
  The transport at the time of a call: on which sockets \<open>send\<close> throws, and which
  sockets have \<open>readyState === OPEN\<close>.
\<close>

record transport =
  send_throws :: "ws \<Rightarrow> bool"
  ready_open :: "ws \<Rightarrow> bool"

text \<open>The body of a publish request. \<open>b_ttl\<close> is \<open>None\<close> when the field is absent.\<close>

record publish_body =
  b_recipientContactCode :: jsval
  b_encryptedMessage :: jsval
  b_messageId :: jsval
  b_ttl :: "int option"

record node_body =
  b_nodeUrl :: jsval
  b_publicKey :: jsval

text \<open>An element of the \<open>messages\<close> array of a pull (lines 211-215).\<close>

record pulled =
  p_id :: jsval
  p_encryptedMessage :: jsval
  p_timestamp :: int

datatype response =
    Status400 string
  | PublishJson (success: bool) (messageId: jsval) (delivered: bool) (pooled: bool)
  | MessagesJson (messages: "pulled list")
  | DeleteJson (deleted: bool)
  | RegisterNodeJson bool (registeredNodes: nat)

datatype completion = Normal | Thrown

subsection \<open>Direct delivery (lines 184-202)\<close>

definition new_message_frame :: "message \<Rightarrow> frame" where
  "new_message_frame m = NewMessage (encryptedMessage m) (id_msg m) (timestamp m)"

text \<open>
  The loop over \<open>this.userSessions\<close>. The only entry the body deletes is the one it is
  visiting, so the entries still to come are those of the start.
\<close>

fun attemptDirectDelivery_loop ::
  "transport \<Rightarrow> message \<Rightarrow> (string \<times> session) list \<Rightarrow> server \<Rightarrow> bool \<times> server" where
  "attemptDirectDelivery_loop tr m [] st = (False, st)"
| "attemptDirectDelivery_loop tr m ((sessionId, s) # todo) st =
     (if JStr (contactCode s) = recipientContactCode m then
        (if send_throws tr (ws s)
         then attemptDirectDelivery_loop tr m todo
                (st\<lparr>userSessions := map_delete sessionId (userSessions st)\<rparr>)
         else (True, st\<lparr>sent := sent st @ [(ws s, new_message_frame m)]\<rparr>))
      else attemptDirectDelivery_loop tr m todo st)"

definition attemptDirectDelivery :: "transport \<Rightarrow> message \<Rightarrow> server \<Rightarrow> bool \<times> server" where
  "attemptDirectDelivery tr m st = attemptDirectDelivery_loop tr m (userSessions st) st"

subsection \<open>Replication (lines 269-286)\<close>

text \<open>One request per node; what comes back, or fails, is dropped.\<close>

definition replicateToNodes :: "message \<Rightarrow> server \<Rightarrow> server" where
  "replicateToNodes m st = st\<lparr>fetched := fetched st @ map (\<lambda>n. (nodeUrl n, m)) (serverNodes st)\<rparr>"

subsection \<open>Publish (lines 143-182)\<close>

definition new_message :: "int \<Rightarrow> publish_body \<Rightarrow> message" where
  "new_message now body =
     \<lparr>id_msg = b_messageId body,
      recipientContactCode = b_recipientContactCode body,
      encryptedMessage = b_encryptedMessage body,
      timestamp = now,
      ttl = (case b_ttl body of None \<Rightarrow> 86400000 | Some t \<Rightarrow> t),
      attempts = 0,
      maxAttempts = 3\<rparr>"

definition handleMessage ::
  "transport \<Rightarrow> int \<Rightarrow> publish_body \<Rightarrow> server \<Rightarrow> response \<times> server" where
  "handleMessage tr now body st =
     (if \<not> truthy (b_recipientContactCode body) \<or> \<not> truthy (b_encryptedMessage body)
         \<or> \<not> truthy (b_messageId body)
      then (Status400 ''Missing required fields'', st)
      else
        let m = new_message now body;
            st1 = st\<lparr>messagePool := map_set (b_messageId body) m (messagePool st)\<rparr>;
            (d, st2) = attemptDirectDelivery tr m st1;
            st3 = (if d then st2\<lparr>messagePool := map_delete (b_messageId body) (messagePool st2)\<rparr>
                   else st2);
            st4 = replicateToNodes m st3
        in (PublishJson True (b_messageId body) d (\<not> d), st4))"

subsection \<open>Pull (lines 204-227)\<close>

definition pulled_of :: "jsval \<Rightarrow> message \<Rightarrow> pulled" where
  "pulled_of k m = \<lparr>p_id = k, p_encryptedMessage = encryptedMessage m, p_timestamp = timestamp m\<rparr>"

fun getMessages_loop ::
  "string \<Rightarrow> (jsval \<times> message) list \<Rightarrow> pulled list \<Rightarrow> server \<Rightarrow> pulled list \<times> server" where
  "getMessages_loop c [] acc st = (acc, st)"
| "getMessages_loop c ((k, m) # todo) acc st =
     (if recipientContactCode m = JStr c
      then getMessages_loop c todo (acc @ [pulled_of k m])
             (st\<lparr>messagePool := map_delete k (messagePool st)\<rparr>)
      else getMessages_loop c todo acc st)"

definition getMessages :: "string \<Rightarrow> server \<Rightarrow> response \<times> server" where
  "getMessages c st = (case getMessages_loop c (messagePool st) [] st of
                         (ms, st') \<Rightarrow> (MessagesJson ms, st'))"

subsection \<open>Delete (lines 229-240)\<close>

definition deleteMessage :: "string \<Rightarrow> server \<Rightarrow> response \<times> server" where
  "deleteMessage i st =
     (DeleteJson (map_has (JStr i) (messagePool st)),
      st\<lparr>messagePool := map_delete (JStr i) (messagePool st)\<rparr>)"

subsection \<open>Node registration (lines 242-258)\<close>

text \<open>\<open>Set.add\<close>: the object is added unless that very object is a member.\<close>

definition set_add :: "node \<Rightarrow> node list \<Rightarrow> node list" where
  "set_add n ns = (if ref n \<in> set (map ref ns) then ns else ns @ [n])"

definition registerNode :: "int \<Rightarrow> node_body \<Rightarrow> server \<Rightarrow> response \<times> server" where
  "registerNode now body st =
     (if \<not> truthy (b_nodeUrl body) \<or> \<not> truthy (b_publicKey body)
      then (Status400 ''Missing node URL or public key'', st)
      else
        let n = \<lparr>ref = nextRef st, nodeUrl = b_nodeUrl body, publicKey = b_publicKey body,
                 lastSeen_node = now\<rparr>;
            st1 = st\<lparr>serverNodes := set_add n (serverNodes st), nextRef := Suc (nextRef st)\<rparr>
        in (RegisterNodeJson True (length (serverNodes st1)), st1))"

subsection \<open>The sweeps (lines 325-361)\<close>

fun cleanupExpiredMessages_loop ::
  "int \<Rightarrow> (jsval \<times> message) list \<Rightarrow> nat \<Rightarrow> server \<Rightarrow> nat \<times> server" where
  "cleanupExpiredMessages_loop now [] cleaned st = (cleaned, st)"
| "cleanupExpiredMessages_loop now ((k, m) # todo) cleaned st =
     (if now - timestamp m > ttl m
      then cleanupExpiredMessages_loop now todo (Suc cleaned)
             (st\<lparr>messagePool := map_delete k (messagePool st)\<rparr>)
      else cleanupExpiredMessages_loop now todo cleaned st)"

text \<open>
  The function returns nothing; the first component is the counter \<open>cleaned\<close> at its
  end, which it logs when positive.
\<close>

definition cleanupExpiredMessages :: "int \<Rightarrow> server \<Rightarrow> nat \<times> server" where
  "cleanupExpiredMessages now st = cleanupExpiredMessages_loop now (messagePool st) 0 st"

fun cleanupInactiveSessions_loop ::
  "int \<Rightarrow> (string \<times> session) list \<Rightarrow> nat \<Rightarrow> server \<Rightarrow> nat \<times> server" where
  "cleanupInactiveSessions_loop now [] cleaned st = (cleaned, st)"
| "cleanupInactiveSessions_loop now ((sessionId, s) # todo) cleaned st =
     (if now - lastSeen s > 5 * 60 * 1000
      then cleanupInactiveSessions_loop now todo (Suc cleaned)
             (st\<lparr>closed := closed st @ [ws s],
                 userSessions := map_delete sessionId (userSessions st)\<rparr>)
      else cleanupInactiveSessions_loop now todo cleaned st)"

definition cleanupInactiveSessions :: "int \<Rightarrow> server \<Rightarrow> nat \<times> server" where
  "cleanupInactiveSessions now st = cleanupInactiveSessions_loop now (userSessions st) 0 st"

subsection \<open>Inbound frames (lines 99-141, 288-313)\<close>

definition ws_send :: "transport \<Rightarrow> ws \<Rightarrow> frame \<Rightarrow> server \<Rightarrow> completion \<times> server" where
  "ws_send tr w f st =
     (if send_throws tr w then (Thrown, st) else (Normal, st\<lparr>sent := sent st @ [(w, f)]\<rparr>))"

definition registerUser :: "transport \<Rightarrow> int \<Rightarrow> ws \<Rightarrow> jsval \<Rightarrow> server \<Rightarrow> completion \<times> server" where
  "registerUser tr now w c st =
     (case c of
        JStr code \<Rightarrow>
          (if code = [] then ws_send tr w (ErrorFrame ''Invalid contact code'') st
           else ws_send tr w (RegistrationSuccess w)
                  (st\<lparr>userSessions :=
                        map_set w \<lparr>ws = w, contactCode = code, lastSeen = now, status = ''online''\<rparr>
                          (userSessions st)\<rparr>))
      | _ \<Rightarrow> ws_send tr w (ErrorFrame ''Invalid contact code'') st)"

fun forwardRealTimeMessage_loop ::
  "transport \<Rightarrow> ws_message \<Rightarrow> (string \<times> session) list \<Rightarrow> server \<Rightarrow> server" where
  "forwardRealTimeMessage_loop tr msg [] st = st"
| "forwardRealTimeMessage_loop tr msg ((sessionId, s) # todo) st =
     (if JStr (contactCode s) = recipientContactCode_m msg then
        (if send_throws tr (ws s)
         then forwardRealTimeMessage_loop tr msg todo
                (st\<lparr>userSessions := map_delete sessionId (userSessions st)\<rparr>)
         else forwardRealTimeMessage_loop tr msg todo
                (st\<lparr>sent := sent st @ [(ws s, Verbatim msg)]\<rparr>))
      else forwardRealTimeMessage_loop tr msg todo st)"

definition forwardRealTimeMessage :: "transport \<Rightarrow> ws_message \<Rightarrow> server \<Rightarrow> server" where
  "forwardRealTimeMessage tr msg st = forwardRealTimeMessage_loop tr msg (userSessions st) st"

definition broadcastStatusUpdate :: "transport \<Rightarrow> ws_message \<Rightarrow> server \<Rightarrow> server" where
  "broadcastStatusUpdate tr msg st =
     st\<lparr>sent := sent st @
           map (\<lambda>c. (c, Verbatim msg))
             (filter (\<lambda>c. ready_open tr c \<and> \<not> send_throws tr c) (clients st))\<rparr>"

text \<open>
  The \<open>switch\<close> inside the \<open>try\<close>. Whatever throws there is caught, and the handler
  then sends the error frame outside any \<open>try\<close>.
\<close>

definition dispatch :: "transport \<Rightarrow> int \<Rightarrow> ws \<Rightarrow> ws_message \<Rightarrow> server \<Rightarrow> completion \<times> server" where
  "dispatch tr now w msg st =
     (if type_m msg = JStr ''register_user'' then registerUser tr now w (contactCode_m msg) st
      else if type_m msg = JStr ''status_update'' then (Normal, broadcastStatusUpdate tr msg st)
      else if type_m msg = JStr ''real_time_message'' then (Normal, forwardRealTimeMessage tr msg st)
      else ws_send tr w (ErrorFrame ''Unknown message type'') st)"

definition handleWebSocketMessage ::
  "transport \<Rightarrow> int \<Rightarrow> ws \<Rightarrow> ws_data \<Rightarrow> server \<Rightarrow> completion \<times> server" where
  "handleWebSocketMessage tr now w d st =
     (case d of
        Invalid \<Rightarrow> ws_send tr w (ErrorFrame ''Invalid message format'') st
      | Parsed msg \<Rightarrow>
          (case dispatch tr now w msg st of
             (Normal, st') \<Rightarrow> (Normal, st')
           | (Thrown, st') \<Rightarrow> ws_send tr w (ErrorFrame ''Invalid message format'') st'))"

text \<open>The broker as the constructor leaves it, with the sockets \<open>cs\<close> connected.\<close>

definition started :: "ws list \<Rightarrow> server" where
  "started cs = \<lparr>messagePool = [], userSessions = [], serverNodes = [], nextRef = 0,
                 clients = cs, sent = [], fetched = [], closed = []\<rparr>"

subsection \<open>Vocabulary of the properties\<close>

text \<open>The test of the pull loop (line 210), on a pool entry.\<close>

definition for_recipient :: "string \<Rightarrow> jsval \<times> message \<Rightarrow> bool" where
  "for_recipient c e = (recipientContactCode (snd e) = JStr c)"

text \<open>The test of the envelope sweep (line 330), on a pool entry.\<close>

definition expired :: "int \<Rightarrow> jsval \<times> message \<Rightarrow> bool" where
  "expired now e = (now - timestamp (snd e) > ttl (snd e))"

text \<open>
  A session takes the envelope: it is bound to the envelope's recipient (line 186) and
  the write to its socket does not throw.
\<close>

definition accepts :: "transport \<Rightarrow> message \<Rightarrow> session \<Rightarrow> bool" where
  "accepts tr m s = (JStr (contactCode s) = recipientContactCode m \<and> \<not> send_throws tr (ws s))"

definition some_write_succeeds :: "transport \<Rightarrow> message \<Rightarrow> server \<Rightarrow> bool" where
  "some_write_succeeds tr m st = (\<exists>s \<in> set (map snd (userSessions st)). accepts tr m s)"

text \<open>
  References are given out in increasing order, so every object of the node registry has
  one below the next to be given.
\<close>

definition nodes_fresh :: "server \<Rightarrow> bool" where
  "nodes_fresh st = (\<forall>n \<in> set (serverNodes st). ref n < nextRef st)"

subsection \<open>Scenarios\<close>

text \<open>A transport on which no write throws and every socket is open.\<close>

definition quiet :: transport where
  "quiet = \<lparr>send_throws = (\<lambda>w. False), ready_open = (\<lambda>w. True)\<rparr>"

definition register_user :: "string \<Rightarrow> ws_data" where
  "register_user c = Parsed \<lparr>type_m = JStr ''register_user'', contactCode_m = JStr c,
                             recipientContactCode_m = JUndefined, rest_m = []\<rparr>"

definition status_update :: ws_data where
  "status_update = Parsed \<lparr>type_m = JStr ''status_update'', contactCode_m = JUndefined,
                           recipientContactCode_m = JUndefined, rest_m = ''status: online''\<rparr>"

definition publish :: "string \<Rightarrow> string \<Rightarrow> string \<Rightarrow> int option \<Rightarrow> publish_body" where
  "publish i r p t = \<lparr>b_recipientContactCode = JStr r, b_encryptedMessage = JStr p,
                      b_messageId = JStr i, b_ttl = t\<rparr>"

text \<open>Two sockets, both registered for the mailbox \<open>R\<close>.\<close>

definition two_devices :: server where
  "two_devices =
     snd (handleWebSocketMessage quiet 2 ''S2'' (register_user ''R'')
       (snd (handleWebSocketMessage quiet 1 ''S1'' (register_user ''R'')
         (started [''S1'', ''S2'']))))"

text \<open>
  A socket that registers at time 0 and sends a \<open>status_update\<close> frame at 299000 ms.
\<close>

definition active_session :: server where
  "active_session =
     snd (handleWebSocketMessage quiet 299000 ''S'' status_update
       (snd (handleWebSocketMessage quiet 0 ''S'' (register_user ''R'') (started [''S'']))))"

definition peer :: node_body where
  "peer = \<lparr>b_nodeUrl = JStr ''https://peer.example'', b_publicKey = JStr ''key''\<rparr>"

text \<open>
  Three publishes with nobody connected: \<open>m1\<close> and \<open>m3\<close> for \<open>R\<close>, \<open>m2\<close> for \<open>Q\<close>;
  \<open>m3\<close> is created at 30 with a ttl of 1000.
\<close>

definition inbox :: server where
  "inbox =
     snd (handleMessage quiet 30 (publish ''m3'' ''R'' ''Z'' (Some 1000))
       (snd (handleMessage quiet 20 (publish ''m2'' ''Q'' ''Y'' None)
         (snd (handleMessage quiet 10 (publish ''m1'' ''R'' ''X'' (Some 60000)) (started []))))))"

text \<open>
  The same pool, after a socket \<open>S1\<close> has connected and registered for \<open>R\<close> at 35 (a
  registration does not drain the pool).
\<close>

definition inbox_online :: server where
  "inbox_online =
     snd (handleWebSocketMessage quiet 35 ''S1'' (register_user ''R'')
            (inbox\<lparr>clients := [''S1'']\<rparr>))"

definition without_payload :: publish_body where
  "without_payload = \<lparr>b_recipientContactCode = JStr ''R'', b_encryptedMessage = JUndefined,
                       b_messageId = JStr ''m5'', b_ttl = None\<rparr>"

section \<open>Properties\<close>

subsection \<open>The \<open>Map\<close> operations\<close>

lemma keys_map_set: "fst ` set (map_set k v es) = insert k (fst ` set es)"
proof (induction es)
  case Nil
  show ?case by simp
next
  case (Cons e es)
  obtain k' v' where e: "e = (k', v')" by (cases e)
  show ?case
  proof (cases "k' = k")
    case True
    then show ?thesis using e by simp
  next
    case False
    then show ?thesis using e Cons.IH by (simp add: insert_commute)
  qed
qed

lemma map_ok_set: "map_ok es \<Longrightarrow> map_ok (map_set k v es)"
  unfolding map_ok_def
  by (induction es) (auto simp: keys_map_set)

lemma map_fst_set_present: "map_has k es \<Longrightarrow> map fst (map_set k v es) = map fst es"
  unfolding map_has_def
  by (induction es) (auto simp: rev_image_eqI)

lemma map_get_set: "map_get (map_set k v es) k = Some v"
  unfolding map_get_def by (induction es) auto

lemma map_ok_delete: "map_ok es \<Longrightarrow> map_ok (map_delete k es)"
  unfolding map_ok_def map_delete_def by (simp add: distinct_map_filter)

lemma map_has_delete: "\<not> map_has k (map_delete k es)"
  unfolding map_has_def map_delete_def by auto

lemma map_delete_set: "map_delete k (map_set k v es) = map_delete k es"
  unfolding map_delete_def by (induction es) auto

lemma map_delete_absent: "\<not> map_has k es \<Longrightarrow> map_delete k es = es"
  unfolding map_has_def map_delete_def by (induction es) auto

text \<open>
  In a map, the entries whose key is the key of an entry satisfying \<open>P\<close> are the entries
  satisfying \<open>P\<close>: this is where the keys being distinct is used.
\<close>

lemma filter_keys_distinct:
  assumes d: "distinct (map fst es)"
  shows "filter (\<lambda>e. fst e \<notin> fst ` set (filter P es)) es = filter (\<lambda>e. \<not> P e) es"
proof -
  have "(fst e \<notin> fst ` set (filter P es)) = (\<not> P e)" if e: "e \<in> set es" for e
  proof
    assume n: "fst e \<notin> fst ` set (filter P es)"
    show "\<not> P e"
    proof
      assume "P e"
      with e have "e \<in> set (filter P es)" by simp
      then have "fst e \<in> fst ` set (filter P es)" by (rule imageI)
      with n show False by simp
    qed
  next
    assume np: "\<not> P e"
    show "fst e \<notin> fst ` set (filter P es)"
    proof
      assume "fst e \<in> fst ` set (filter P es)"
      then obtain e' where e': "e' \<in> set es" "P e'" "fst e' = fst e" by auto
      from d e e' have "e' = e" by (metis eq_key_imp_eq_value prod.collapse)
      with e' np show False by simp
    qed
  qed
  then show ?thesis by (simp cong: filter_cong)
qed

subsection \<open>What the loops compute\<close>

lemma deliver_pool:
  "messagePool (snd (attemptDirectDelivery_loop tr m todo st)) = messagePool st"
  by (induction tr m todo st rule: attemptDirectDelivery_loop.induct) auto

lemma deliver_result:
  "fst (attemptDirectDelivery_loop tr m todo st) = (\<exists>s \<in> set (map snd todo). accepts tr m s)"
  by (induction tr m todo st rule: attemptDirectDelivery_loop.induct) (auto simp: accepts_def)

text \<open>The loop writes to the first session that takes the envelope, and to no other.\<close>

lemma deliver_sent:
  "sent (snd (attemptDirectDelivery_loop tr m todo st)) =
     sent st @ (case find (accepts tr m) (map snd todo) of
                  None \<Rightarrow> [] | Some s \<Rightarrow> [(ws s, new_message_frame m)])"
  by (induction tr m todo st rule: attemptDirectDelivery_loop.induct) (auto simp: accepts_def)

lemma getMessages_loop_eq:
  "getMessages_loop c todo acc st =
     (acc @ map (\<lambda>e. pulled_of (fst e) (snd e)) (filter (for_recipient c) todo),
      st\<lparr>messagePool :=
           filter (\<lambda>e. fst e \<notin> fst ` set (filter (for_recipient c) todo)) (messagePool st)\<rparr>)"
proof (induction c todo acc st rule: getMessages_loop.induct)
  case (1 c acc st)
  show ?case by simp
next
  case (2 c k m todo acc st)
  show ?case
  proof (cases "recipientContactCode m = JStr c")
    case True
    then show ?thesis using 2
      by (simp add: for_recipient_def map_delete_def conj_commute)
  next
    case False
    then show ?thesis using 2 by (simp add: for_recipient_def)
  qed
qed

lemma getMessages_eq:
  assumes "map_ok (messagePool st)"
  shows "getMessages c st =
     (MessagesJson (map (\<lambda>e. pulled_of (fst e) (snd e))
                     (filter (for_recipient c) (messagePool st))),
      st\<lparr>messagePool := filter (\<lambda>e. \<not> for_recipient c e) (messagePool st)\<rparr>)"
proof -
  from assms have d: "distinct (map fst (messagePool st))" by (simp add: map_ok_def)
  show ?thesis
    unfolding getMessages_def getMessages_loop_eq filter_keys_distinct [OF d] by simp
qed

lemma cleanupExpiredMessages_loop_eq:
  "cleanupExpiredMessages_loop now todo cleaned st =
     (cleaned + length (filter (expired now) todo),
      st\<lparr>messagePool :=
           filter (\<lambda>e. fst e \<notin> fst ` set (filter (expired now) todo)) (messagePool st)\<rparr>)"
proof (induction now todo cleaned st rule: cleanupExpiredMessages_loop.induct)
  case (1 now cleaned st)
  show ?case by simp
next
  case (2 now k m todo cleaned st)
  show ?case
  proof (cases "now - timestamp m > ttl m")
    case True
    then show ?thesis using 2
      by (simp add: expired_def map_delete_def conj_commute)
  next
    case False
    then show ?thesis using 2 by (simp add: expired_def)
  qed
qed

lemma cleanupExpiredMessages_eq:
  assumes "map_ok (messagePool st)"
  shows "cleanupExpiredMessages now st =
     (length (filter (expired now) (messagePool st)),
      st\<lparr>messagePool := filter (\<lambda>e. \<not> expired now e) (messagePool st)\<rparr>)"
proof -
  from assms have d: "distinct (map fst (messagePool st))" by (simp add: map_ok_def)
  show ?thesis
    unfolding cleanupExpiredMessages_def cleanupExpiredMessages_loop_eq
      filter_keys_distinct [OF d]
    by simp
qed

subsection \<open>A well-formed publish\<close>

lemma replicate_pool: "messagePool (replicateToNodes m st) = messagePool st"
  by (simp add: replicateToNodes_def)

lemma replicate_sent: "sent (replicateToNodes m st) = sent st"
  by (simp add: replicateToNodes_def)

lemma handleMessage_wf:
  assumes "truthy (b_recipientContactCode body)" "truthy (b_encryptedMessage body)"
    "truthy (b_messageId body)"
  shows "handleMessage tr now body st =
     (let m = new_message now body;
          r = attemptDirectDelivery tr m
                (st\<lparr>messagePool := map_set (b_messageId body) m (messagePool st)\<rparr>)
      in (PublishJson True (b_messageId body) (fst r) (\<not> fst r),
          replicateToNodes m
            (if fst r
             then (snd r)\<lparr>messagePool := map_delete (b_messageId body) (messagePool (snd r))\<rparr>
             else snd r)))"
  using assms by (simp add: handleMessage_def Let_def split: prod.splits)

lemma handleMessage_response:
  assumes "truthy (b_recipientContactCode body)" "truthy (b_encryptedMessage body)"
    "truthy (b_messageId body)"
  shows "fst (handleMessage tr now body st) =
     PublishJson True (b_messageId body)
       (some_write_succeeds tr (new_message now body) st)
       (\<not> some_write_succeeds tr (new_message now body) st)"
  by (simp add: handleMessage_wf [OF assms] Let_def attemptDirectDelivery_def deliver_result
      some_write_succeeds_def)

lemma handleMessage_pool:
  assumes "truthy (b_recipientContactCode body)" "truthy (b_encryptedMessage body)"
    "truthy (b_messageId body)"
  shows "messagePool (snd (handleMessage tr now body st)) =
     (if some_write_succeeds tr (new_message now body) st
      then map_delete (b_messageId body)
             (map_set (b_messageId body) (new_message now body) (messagePool st))
      else map_set (b_messageId body) (new_message now body) (messagePool st))"
  by (simp add: handleMessage_wf [OF assms] Let_def attemptDirectDelivery_def deliver_result
      some_write_succeeds_def replicate_pool deliver_pool)

text \<open>What a publish writes to the sessions.\<close>

lemma handleMessage_sent:
  assumes "truthy (b_recipientContactCode body)" "truthy (b_encryptedMessage body)"
    "truthy (b_messageId body)"
  shows "sent (snd (handleMessage tr now body st)) =
     sent st @ (case find (accepts tr (new_message now body)) (map snd (userSessions st)) of
                  None \<Rightarrow> []
                | Some s \<Rightarrow> [(ws s, new_message_frame (new_message now body))])"
  by (simp add: handleMessage_wf [OF assms] Let_def attemptDirectDelivery_def
      replicate_sent deliver_sent)

lemma handleMessage_sent_cases:
  assumes "truthy (b_recipientContactCode body)" "truthy (b_encryptedMessage body)"
    "truthy (b_messageId body)"
  shows "if some_write_succeeds tr (new_message now body) st
         then \<exists>s \<in> set (map snd (userSessions st)). accepts tr (new_message now body) s
                \<and> sent (snd (handleMessage tr now body st))
                    = sent st @ [(ws s, new_message_frame (new_message now body))]
         else sent (snd (handleMessage tr now body st)) = sent st"
proof (cases "find (accepts tr (new_message now body)) (map snd (userSessions st))")
  case None
  then have "\<not> some_write_succeeds tr (new_message now body) st"
    by (auto simp: some_write_succeeds_def find_None_iff)
  then show ?thesis using None by (simp add: handleMessage_sent [OF assms])
next
  case (Some s)
  then have s: "s \<in> set (map snd (userSessions st))" "accepts tr (new_message now body) s"
    by (auto simp: find_Some_iff)
  then have "some_write_succeeds tr (new_message now body) st"
    unfolding some_write_succeeds_def by blast
  then show ?thesis using Some s by (auto simp: handleMessage_sent [OF assms])
qed

lemma handleMessage_falsy:
  assumes "\<not> truthy (b_recipientContactCode body) \<or> \<not> truthy (b_encryptedMessage body)
           \<or> \<not> truthy (b_messageId body)"
  shows "handleMessage tr now body st = (Status400 ''Missing required fields'', st)"
  using assms by (simp add: handleMessage_def)

subsection \<open>Inbound frames and the sessions\<close>

lemma ws_send_sessions: "userSessions (snd (ws_send tr w f st)) = userSessions st"
  by (simp add: ws_send_def)

lemma forward_sessions:
  "set (userSessions (forwardRealTimeMessage_loop tr msg todo st)) \<subseteq> set (userSessions st)"
proof (induction tr msg todo st rule: forwardRealTimeMessage_loop.induct)
  case (1 tr msg st)
  show ?case by simp
next
  case (2 tr msg sessionId s todo st)
  then show ?case by (auto simp: map_delete_def)
qed

subsection \<open>The keys of the pool stay distinct\<close>

lemma started_map_ok: "map_ok (messagePool (started cs))"
  by (simp add: started_def map_ok_def)

lemma handleMessage_map_ok:
  assumes "map_ok (messagePool st)"
  shows "map_ok (messagePool (snd (handleMessage tr now body st)))"
proof (cases "truthy (b_recipientContactCode body) \<and> truthy (b_encryptedMessage body)
              \<and> truthy (b_messageId body)")
  case True
  then show ?thesis
    using assms by (simp add: handleMessage_pool map_ok_set map_ok_delete)
next
  case False
  then have "handleMessage tr now body st = (Status400 ''Missing required fields'', st)"
    by (intro handleMessage_falsy) auto
  then show ?thesis using assms by simp
qed

lemma getMessages_map_ok:
  assumes "map_ok (messagePool st)"
  shows "map_ok (messagePool (snd (getMessages c st)))"
  using assms by (simp add: getMessages_eq [OF assms] map_ok_def distinct_map_filter)

lemma deleteMessage_map_ok:
  "map_ok (messagePool st) \<Longrightarrow> map_ok (messagePool (snd (deleteMessage i st)))"
  by (simp add: deleteMessage_def map_ok_delete)

lemma cleanupExpiredMessages_map_ok:
  assumes "map_ok (messagePool st)"
  shows "map_ok (messagePool (snd (cleanupExpiredMessages now st)))"
  using assms by (simp add: cleanupExpiredMessages_eq [OF assms] map_ok_def distinct_map_filter)

subsection \<open>Evaluating the scenarios\<close>

lemmas eval_defs = quiet_def register_user_def status_update_def publish_def
  started_def handleWebSocketMessage_def dispatch_def registerUser_def ws_send_def
  handleMessage_def attemptDirectDelivery_def new_message_def new_message_frame_def
  replicateToNodes_def map_delete_def map_has_def map_get_def map_ok_def
  broadcastStatusUpdate_def forwardRealTimeMessage_def cleanupInactiveSessions_def
  cleanupExpiredMessages_def registerNode_def set_add_def getMessages_def pulled_of_def
  deleteMessage_def for_recipient_def expired_def accepts_def some_write_succeeds_def Let_def

lemma two_devices_eq:
  "two_devices =
     \<lparr>messagePool = [],
      userSessions =
        [(''S1'', \<lparr>ws = ''S1'', contactCode = ''R'', lastSeen = 1, status = ''online''\<rparr>),
         (''S2'', \<lparr>ws = ''S2'', contactCode = ''R'', lastSeen = 2, status = ''online''\<rparr>)],
      serverNodes = [], nextRef = 0, clients = [''S1'', ''S2''],
      sent = [(''S1'', RegistrationSuccess ''S1''), (''S2'', RegistrationSuccess ''S2'')],
      fetched = [], closed = []\<rparr>"
  by (simp add: two_devices_def eval_defs)

lemma inbox_eq:
  "inbox =
     \<lparr>messagePool =
        [(JStr ''m1'', \<lparr>id_msg = JStr ''m1'', recipientContactCode = JStr ''R'',
            encryptedMessage = JStr ''X'', timestamp = 10, ttl = 60000,
            attempts = 0, maxAttempts = 3\<rparr>),
         (JStr ''m2'', \<lparr>id_msg = JStr ''m2'', recipientContactCode = JStr ''Q'',
            encryptedMessage = JStr ''Y'', timestamp = 20, ttl = 86400000,
            attempts = 0, maxAttempts = 3\<rparr>),
         (JStr ''m3'', \<lparr>id_msg = JStr ''m3'', recipientContactCode = JStr ''R'',
            encryptedMessage = JStr ''Z'', timestamp = 30, ttl = 1000,
            attempts = 0, maxAttempts = 3\<rparr>)],
      userSessions = [], serverNodes = [], nextRef = 0, clients = [],
      sent = [], fetched = [], closed = []\<rparr>"
  by (simp add: inbox_def eval_defs)

section \<open>The claims\<close>

text \<open>
  C1. Claimed: while two or more sessions are bound to the recipient of a published
  envelope, every one of them receives a \<open>new_message\<close> frame for it. The delivery loop
  returns at the first write that succeeds (line 194). So a well-formed publish writes
  one \<open>new_message\<close> frame and no more: to the first session, in the order of the
  session map, that is bound to the recipient and whose socket takes the write; when
  there is none it writes nothing.
\<close>

theorem publish_writes_one_frame:
  assumes "truthy (b_recipientContactCode body)" "truthy (b_encryptedMessage body)"
    "truthy (b_messageId body)"
  shows "sent (snd (handleMessage tr now body st)) =
     sent st @ (case find (accepts tr (new_message now body)) (map snd (userSessions st)) of
                  None \<Rightarrow> []
                | Some s \<Rightarrow> [(ws s, new_message_frame (new_message now body))])"
  by (rule handleMessage_sent [OF assms])

text \<open>
  With the sockets \<open>S1\<close> and \<open>S2\<close> both registered for \<open>R\<close> and both writable, the
  publish of \<open>m4\<close> answers \<open>delivered\<close>, writes its frame to \<open>S1\<close> and nothing to
  \<open>S2\<close>; the envelope is gone from the pool, so \<open>S2\<close> never gets it from this broker.
\<close>

theorem publish_writes_one_frame_witness:
  "map snd (userSessions two_devices) =
     [\<lparr>ws = ''S1'', contactCode = ''R'', lastSeen = 1, status = ''online''\<rparr>,
      \<lparr>ws = ''S2'', contactCode = ''R'', lastSeen = 2, status = ''online''\<rparr>]
   \<and> fst (handleMessage quiet 3 (publish ''m4'' ''R'' ''Y'' None) two_devices)
       = PublishJson True (JStr ''m4'') True False
   \<and> sent (snd (handleMessage quiet 3 (publish ''m4'' ''R'' ''Y'' None) two_devices))
       = sent two_devices @ [(''S1'', NewMessage (JStr ''Y'') (JStr ''m4'') 3)]
   \<and> messagePool (snd (handleMessage quiet 3 (publish ''m4'' ''R'' ''Y'' None) two_devices)) = []"
  using publish_writes_one_frame [of "publish ''m4'' ''R'' ''Y'' None" quiet 3 two_devices]
  by (simp add: two_devices_eq eval_defs)

text \<open>
  C2. Claimed: an insert whose identifier is already in the pool reports duplicate and
  leaves the stored envelope as it was. The pool is written with \<open>Map.set\<close> (line 161)
  and nothing looks the identifier up first: publishing \<open>m1\<close> again, with another
  payload, answers as any publish does, and the envelope stored under \<open>m1\<close> is no
  longer the one that was there.
\<close>

theorem duplicate_insert_counterexample:
  "map_has (JStr ''m1'') (messagePool inbox)
   \<and> fst (handleMessage quiet 40 (publish ''m1'' ''R'' ''W'' None) inbox)
       = PublishJson True (JStr ''m1'') False True
   \<and> map_get (messagePool (snd (handleMessage quiet 40 (publish ''m1'' ''R'' ''W'' None) inbox)))
        (JStr ''m1'')
       \<noteq> map_get (messagePool inbox) (JStr ''m1'')"
  by (simp add: inbox_eq eval_defs)

text \<open>
  C2, as the code has it: a well-formed publish whose identifier is already in the pool
  is never answered as a duplicate. Its answer is that of any publish: \<open>success\<close>,
  with \<open>delivered\<close> true exactly when a session bound to the recipient takes the write,
  and \<open>pooled\<close> its negation. When no session takes the write, the pool is the old pool
  with the new envelope put under the identifier in place of the old one, where the old
  one stood (the keys and their order are as before, the other entries untouched). When
  a session takes the write, the pool is the old pool without the entry of the
  identifier: old and new envelope are both gone.
\<close>

theorem duplicate_insert_overwrites:
  assumes "truthy (b_recipientContactCode body)" "truthy (b_encryptedMessage body)"
    "truthy (b_messageId body)"
    and "map_has (b_messageId body) (messagePool st)"
  shows "fst (handleMessage tr now body st) =
           PublishJson True (b_messageId body)
             (some_write_succeeds tr (new_message now body) st)
             (\<not> some_write_succeeds tr (new_message now body) st)
       \<and> messagePool (snd (handleMessage tr now body st)) =
           (if some_write_succeeds tr (new_message now body) st
            then map_delete (b_messageId body) (messagePool st)
            else map_set (b_messageId body) (new_message now body) (messagePool st))
       \<and> (\<not> some_write_succeeds tr (new_message now body) st \<longrightarrow>
            map_get (messagePool (snd (handleMessage tr now body st))) (b_messageId body)
              = Some (new_message now body)
            \<and> map fst (messagePool (snd (handleMessage tr now body st)))
              = map fst (messagePool st))
       \<and> (some_write_succeeds tr (new_message now body) st \<longrightarrow>
            \<not> map_has (b_messageId body) (messagePool (snd (handleMessage tr now body st))))"
  using assms(4)
  by (simp add: handleMessage_response [OF assms(1-3)] handleMessage_pool [OF assms(1-3)]
      map_has_delete map_get_set map_fst_set_present map_delete_set)

text \<open>
  Publishing \<open>m1\<close> again with the payload \<open>W\<close>: with nobody connected the new envelope
  takes the place of the old one; with \<open>S1\<close> registered for \<open>R\<close> the answer is
  \<open>delivered\<close> and no \<open>m1\<close> is left.
\<close>

theorem duplicate_insert_overwrites_witness:
  "map_has (JStr ''m1'') (messagePool inbox)
   \<and> \<not> some_write_succeeds quiet (new_message 40 (publish ''m1'' ''R'' ''W'' None)) inbox
   \<and> fst (handleMessage quiet 40 (publish ''m1'' ''R'' ''W'' None) inbox)
       = PublishJson True (JStr ''m1'') False True
   \<and> map_get (messagePool (snd (handleMessage quiet 40 (publish ''m1'' ''R'' ''W'' None) inbox)))
        (JStr ''m1'')
       = Some \<lparr>id_msg = JStr ''m1'', recipientContactCode = JStr ''R'',
               encryptedMessage = JStr ''W'', timestamp = 40, ttl = 86400000,
               attempts = 0, maxAttempts = 3\<rparr>
   \<and> map fst (messagePool (snd (handleMessage quiet 40 (publish ''m1'' ''R'' ''W'' None) inbox)))
       = [JStr ''m1'', JStr ''m2'', JStr ''m3'']
   \<and> map_has (JStr ''m1'') (messagePool inbox_online)
   \<and> some_write_succeeds quiet (new_message 40 (publish ''m1'' ''R'' ''W'' None)) inbox_online
   \<and> fst (handleMessage quiet 40 (publish ''m1'' ''R'' ''W'' None) inbox_online)
       = PublishJson True (JStr ''m1'') True False
   \<and> map fst (messagePool
                (snd (handleMessage quiet 40 (publish ''m1'' ''R'' ''W'' None) inbox_online)))
       = [JStr ''m2'', JStr ''m3'']"
proof -
  have h: "map_has (JStr ''m1'') (messagePool inbox)"
    by (simp add: inbox_eq map_has_def)
  have n: "\<not> some_write_succeeds quiet (new_message 40 (publish ''m1'' ''R'' ''W'' None)) inbox"
    by (simp add: inbox_eq some_write_succeeds_def)
  have k: "map fst (messagePool inbox) = [JStr ''m1'', JStr ''m2'', JStr ''m3'']"
    by (simp add: inbox_eq)
  have o: "messagePool inbox_online = messagePool inbox"
    "map snd (userSessions inbox_online)
       = [\<lparr>ws = ''S1'', contactCode = ''R'', lastSeen = 35, status = ''online''\<rparr>]"
    by (simp_all add: inbox_online_def inbox_eq eval_defs)
  have h': "map_has (JStr ''m1'') (messagePool inbox_online)"
    using h by (simp add: o)
  have y: "some_write_succeeds quiet (new_message 40 (publish ''m1'' ''R'' ''W'' None))
             inbox_online"
    by (simp add: o some_write_succeeds_def accepts_def new_message_def publish_def quiet_def)
  have d: "map fst (map_delete (JStr ''m1'') (messagePool inbox)) = [JStr ''m2'', JStr ''m3'']"
    by (simp add: inbox_eq map_delete_def)
  show ?thesis
    using h n k h' y d
      duplicate_insert_overwrites [of "publish ''m1'' ''R'' ''W'' None" inbox quiet 40]
      duplicate_insert_overwrites [of "publish ''m1'' ''R'' ''W'' None" inbox_online quiet 40]
    by (simp add: publish_def new_message_def o map_get_set map_fst_set_present map_has_delete)
qed

text \<open>
  C3. Claimed: every well-formed inbound frame on a session sets its \<open>lastSeen\<close> to the
  current time, so the session sweep removes a session only when no frame has come in
  on it for 5 minutes. \<open>lastSeen\<close> is written in one place, the session object that
  \<open>registerUser\<close> builds (line 131). A parsed frame of any other type changes no entry
  of the session map: every entry there after the frame is an entry that was there
  before it, \<open>lastSeen\<close> included.
\<close>

theorem other_frames_keep_lastSeen:
  assumes "type_m msg \<noteq> JStr ''register_user''"
  shows "set (userSessions (snd (handleWebSocketMessage tr now w (Parsed msg) st)))
           \<subseteq> set (userSessions st)"
proof -
  have d: "set (userSessions (snd (dispatch tr now w msg st))) \<subseteq> set (userSessions st)"
    using assms forward_sessions [of tr msg "userSessions st" st]
    by (simp add: dispatch_def broadcastStatusUpdate_def forwardRealTimeMessage_def
        ws_send_sessions)
  show ?thesis
  proof (cases "dispatch tr now w msg st")
    case (Pair c st')
    then show ?thesis using d
      by (cases c) (simp_all add: handleWebSocketMessage_def ws_send_sessions)
  qed
qed

text \<open>
  The socket \<open>S\<close> registers at 0 and sends a \<open>status_update\<close> at 299000, which the
  broker handles (it is broadcast). Its \<open>lastSeen\<close> is still 0, and the sweep at 300001,
  1001 ms after that frame, closes \<open>S\<close> and removes it.
\<close>

theorem other_frames_keep_lastSeen_witness:
  "sent active_session =
     [(''S'', RegistrationSuccess ''S''),
      (''S'', Verbatim \<lparr>type_m = JStr ''status_update'', contactCode_m = JUndefined,
                 recipientContactCode_m = JUndefined, rest_m = ''status: online''\<rparr>)]
   \<and> userSessions active_session
       = [(''S'', \<lparr>ws = ''S'', contactCode = ''R'', lastSeen = 0, status = ''online''\<rparr>)]
   \<and> userSessions (snd (cleanupInactiveSessions 300001 active_session)) = []
   \<and> closed (snd (cleanupInactiveSessions 300001 active_session)) = [''S'']"
  using other_frames_keep_lastSeen
    [of "\<lparr>type_m = JStr ''status_update'', contactCode_m = JUndefined,
          recipientContactCode_m = JUndefined, rest_m = ''status: online''\<rparr>"
        quiet 299000 "''S''"
        "snd (handleWebSocketMessage quiet 0 ''S'' (register_user ''R'') (started [''S'']))"]
  by (simp add: active_session_def eval_defs)

text \<open>
  C4. Claimed: registering the same \<open>nodeUrl\<close> and \<open>publicKey\<close> twice leaves the size of
  the node registry as it was after the first call. The registry is a \<open>Set\<close>, and what
  is added is a new object each time (line 250); a \<open>Set\<close> holds objects by reference, so
  the new object is never a member already: every well-formed registration, whatever
  its fields, makes the registry one larger.
\<close>

theorem register_node_always_grows:
  assumes "truthy (b_nodeUrl body)" "truthy (b_publicKey body)" "nodes_fresh st"
  shows "fst (registerNode now body st) = RegisterNodeJson True (Suc (length (serverNodes st)))
       \<and> length (serverNodes (snd (registerNode now body st))) = Suc (length (serverNodes st))
       \<and> nodes_fresh (snd (registerNode now body st))"
proof -
  have "nextRef st \<notin> ref ` set (serverNodes st)"
    using assms(3) by (auto simp: nodes_fresh_def)
  then show ?thesis
    using assms by (auto simp: registerNode_def set_add_def Let_def nodes_fresh_def less_Suc_eq)
qed

text \<open>The same peer registered twice on a new broker: the answers count 1 and 2.\<close>

theorem register_node_always_grows_witness:
  "nodes_fresh (snd (registerNode 1 peer (started [])))
   \<and> fst (registerNode 1 peer (started [])) = RegisterNodeJson True 1
   \<and> fst (registerNode 2 peer (snd (registerNode 1 peer (started [])))) = RegisterNodeJson True 2
   \<and> map nodeUrl (serverNodes (snd (registerNode 2 peer (snd (registerNode 1 peer (started []))))))
       = [JStr ''https://peer.example'', JStr ''https://peer.example'']"
proof -
  have f: "nodes_fresh (snd (registerNode 1 peer (started [])))"
    by (simp add: peer_def nodes_fresh_def eval_defs)
  have t: "truthy (b_nodeUrl peer)" "truthy (b_publicKey peer)"
    by (simp_all add: peer_def)
  have l: "length (serverNodes (snd (registerNode 1 peer (started [])))) = 1"
    by (simp add: peer_def eval_defs)
  have u: "map nodeUrl
             (serverNodes (snd (registerNode 2 peer (snd (registerNode 1 peer (started []))))))
       = [JStr ''https://peer.example'', JStr ''https://peer.example'']"
    by (simp add: peer_def eval_defs)
  have a: "fst (registerNode 1 peer (started [])) = RegisterNodeJson True 1"
    by (simp add: peer_def eval_defs)
  show ?thesis
    using f l u a register_node_always_grows [OF t f, of 2] by simp
qed

text \<open>
  C5. For a publish with the three required fields: the answer carries
  \<open>delivered = true\<close> exactly when the write of the \<open>new_message\<close> frame succeeds for
  at least one session bound to the recipient, and \<open>pooled\<close> is the negation of
  \<open>delivered\<close>; when delivered, the frame has been written to such a session and the
  pool holds no entry under the identifier; otherwise nothing has been written and the
  pool holds the envelope.
\<close>

theorem publish_delivered_or_pooled:
  assumes "truthy (b_recipientContactCode body)" "truthy (b_encryptedMessage body)"
    "truthy (b_messageId body)"
  shows "fst (handleMessage tr now body st) =
           PublishJson True (b_messageId body)
             (some_write_succeeds tr (new_message now body) st)
             (\<not> some_write_succeeds tr (new_message now body) st)
       \<and> (some_write_succeeds tr (new_message now body) st \<longrightarrow>
            \<not> map_has (b_messageId body) (messagePool (snd (handleMessage tr now body st))))
       \<and> (\<not> some_write_succeeds tr (new_message now body) st \<longrightarrow>
            map_get (messagePool (snd (handleMessage tr now body st))) (b_messageId body)
              = Some (new_message now body))
       \<and> (if some_write_succeeds tr (new_message now body) st
          then \<exists>s \<in> set (map snd (userSessions st)). accepts tr (new_message now body) s
                 \<and> sent (snd (handleMessage tr now body st))
                     = sent st @ [(ws s, new_message_frame (new_message now body))]
          else sent (snd (handleMessage tr now body st)) = sent st)"
  using handleMessage_sent_cases [OF assms, of tr now st]
  by (simp add: handleMessage_response [OF assms] handleMessage_pool [OF assms]
      map_has_delete map_get_set)

theorem publish_delivered_or_pooled_witness:
  "some_write_succeeds quiet (new_message 3 (publish ''m4'' ''R'' ''Y'' None)) two_devices
   \<and> fst (handleMessage quiet 3 (publish ''m4'' ''R'' ''Y'' None) two_devices)
       = PublishJson True (JStr ''m4'') True False
   \<and> \<not> map_has (JStr ''m4'')
         (messagePool (snd (handleMessage quiet 3 (publish ''m4'' ''R'' ''Y'' None) two_devices)))
   \<and> \<not> some_write_succeeds quiet (new_message 40 (publish ''m6'' ''R'' ''V'' None)) inbox
   \<and> fst (handleMessage quiet 40 (publish ''m6'' ''R'' ''V'' None) inbox)
       = PublishJson True (JStr ''m6'') False True
   \<and> map_get (messagePool (snd (handleMessage quiet 40 (publish ''m6'' ''R'' ''V'' None) inbox)))
        (JStr ''m6'')
       = Some (new_message 40 (publish ''m6'' ''R'' ''V'' None))"
proof -
  have a: "some_write_succeeds quiet (new_message 3 (publish ''m4'' ''R'' ''Y'' None)) two_devices"
    by (simp add: two_devices_eq some_write_succeeds_def accepts_def new_message_def
        publish_def quiet_def)
  have b: "\<not> some_write_succeeds quiet (new_message 40 (publish ''m6'' ''R'' ''V'' None)) inbox"
    by (simp add: inbox_eq some_write_succeeds_def)
  show ?thesis
    using a b
      publish_delivered_or_pooled [of "publish ''m4'' ''R'' ''Y'' None" quiet 3 two_devices]
      publish_delivered_or_pooled [of "publish ''m6'' ''R'' ''V'' None" quiet 40 inbox]
    by (simp add: publish_def)
qed

text \<open>
  C6. A pull for the recipient code \<open>R\<close> returns, in the order of insertion, every
  envelope of the pool whose recipient is \<open>R\<close>, and leaves in the pool exactly the
  others; a second pull for \<open>R\<close> right after it returns the empty list.
\<close>

theorem pull_drains_recipient:
  assumes "map_ok (messagePool st)"
  shows "fst (getMessages R st) =
           MessagesJson (map (\<lambda>e. pulled_of (fst e) (snd e))
                          (filter (for_recipient R) (messagePool st)))
       \<and> messagePool (snd (getMessages R st)) = filter (\<lambda>e. \<not> for_recipient R e) (messagePool st)
       \<and> fst (getMessages R (snd (getMessages R st))) = MessagesJson []"
proof -
  let ?st' = "st\<lparr>messagePool := filter (\<lambda>e. \<not> for_recipient R e) (messagePool st)\<rparr>"
  have 1: "getMessages R st =
     (MessagesJson (map (\<lambda>e. pulled_of (fst e) (snd e))
                     (filter (for_recipient R) (messagePool st))), ?st')"
    by (rule getMessages_eq [OF assms])
  have ok: "map_ok (messagePool ?st')"
    using assms by (simp add: map_ok_def distinct_map_filter)
  have 2: "fst (getMessages R ?st') = MessagesJson []"
    by (simp add: getMessages_eq [OF ok])
  show ?thesis using 2 by (simp add: 1)
qed

theorem pull_drains_recipient_witness:
  "map_ok (messagePool inbox)
   \<and> fst (getMessages ''R'' inbox) =
       MessagesJson [\<lparr>p_id = JStr ''m1'', p_encryptedMessage = JStr ''X'', p_timestamp = 10\<rparr>,
                     \<lparr>p_id = JStr ''m3'', p_encryptedMessage = JStr ''Z'', p_timestamp = 30\<rparr>]
   \<and> map fst (messagePool (snd (getMessages ''R'' inbox))) = [JStr ''m2'']
   \<and> fst (getMessages ''R'' (snd (getMessages ''R'' inbox))) = MessagesJson []"
proof -
  have h: "map_ok (messagePool inbox)"
    by (simp add: inbox_eq map_ok_def)
  show ?thesis
    using h pull_drains_recipient [OF h, of "''R''"]
    by (simp add: inbox_eq for_recipient_def pulled_of_def)
qed

text \<open>
  C7. Claimed: the envelope sweep removes exactly the envelopes with
  \<open>created_at + ttl \<le> instant\<close>, one whose expiry instant is the sweep instant
  included, and returns their number. The test of the sweep is
  \<open>now - timestamp > ttl\<close> (line 330), which is strict: \<open>m3\<close>, created at 30 with a ttl
  of 1000, is still in the pool after the sweep at 1030, and that sweep counts nothing.
\<close>

theorem sweep_at_expiry_instant_counterexample:
  "map_get (messagePool inbox) (JStr ''m3'')
     = Some \<lparr>id_msg = JStr ''m3'', recipientContactCode = JStr ''R'',
             encryptedMessage = JStr ''Z'', timestamp = 30, ttl = 1000,
             attempts = 0, maxAttempts = 3\<rparr>
   \<and> (30::int) + 1000 \<le> 1030
   \<and> map_has (JStr ''m3'') (messagePool (snd (cleanupExpiredMessages 1030 inbox)))
   \<and> fst (cleanupExpiredMessages 1030 inbox) = 0"
  by (simp add: inbox_eq eval_defs)

text \<open>
  C7, as the code has it: the envelope sweep at the instant \<open>now\<close> removes exactly the
  envelopes with \<open>timestamp + ttl < now\<close>, so an envelope whose expiry instant is the
  sweep instant stays, as does every envelope that expires later; the counter of the
  sweep, which it logs and does not return, ends at the number removed.
\<close>

theorem sweep_removes_strictly_expired:
  assumes "map_ok (messagePool st)"
  shows "messagePool (snd (cleanupExpiredMessages now st)) =
           filter (\<lambda>e. \<not> timestamp (snd e) + ttl (snd e) < now) (messagePool st)
       \<and> fst (cleanupExpiredMessages now st) =
           length (filter (\<lambda>e. timestamp (snd e) + ttl (snd e) < now) (messagePool st))"
proof -
  have "expired now = (\<lambda>e. timestamp (snd e) + ttl (snd e) < now)"
    by (rule ext) (auto simp: expired_def)
  then show ?thesis by (simp add: cleanupExpiredMessages_eq [OF assms])
qed

theorem sweep_removes_strictly_expired_witness:
  "map_ok (messagePool inbox)
   \<and> map fst (messagePool (snd (cleanupExpiredMessages 1031 inbox))) = [JStr ''m1'', JStr ''m2'']
   \<and> fst (cleanupExpiredMessages 1031 inbox) = 1
   \<and> map fst (messagePool (snd (cleanupExpiredMessages 1030 inbox)))
       = [JStr ''m1'', JStr ''m2'', JStr ''m3'']"
proof -
  have h: "map_ok (messagePool inbox)"
    by (simp add: inbox_eq map_ok_def)
  show ?thesis
    using h sweep_removes_strictly_expired [OF h, of 1031]
      sweep_removes_strictly_expired [OF h, of 1030]
    by (simp add: inbox_eq)
qed

text \<open>
  C8. A publish whose body lacks the recipient code, the payload or the identifier is
  answered with status 400, and the state after it is the state before it: nothing is
  put into the pool, nothing is written to a session, no request goes to a peer.
\<close>

theorem publish_missing_field_rejected:
  assumes "b_recipientContactCode body = JUndefined \<or> b_encryptedMessage body = JUndefined
           \<or> b_messageId body = JUndefined"
  shows "handleMessage tr now body st = (Status400 ''Missing required fields'', st)"
  using assms by (intro handleMessage_falsy) auto

theorem publish_missing_field_rejected_witness:
  "b_encryptedMessage without_payload = JUndefined
   \<and> handleMessage quiet 3 without_payload two_devices
       = (Status400 ''Missing required fields'', two_devices)
   \<and> messagePool two_devices = []
   \<and> fetched two_devices = []"
proof -
  have h: "b_encryptedMessage without_payload = JUndefined"
    by (simp add: without_payload_def)
  show ?thesis
    using h publish_missing_field_rejected [of without_payload quiet 3 two_devices]
    by (simp add: two_devices_eq)
qed

text \<open>
  C9. Deleting an identifier that is in the pool removes it and reports true; a second
  delete of the same identifier right after it reports false and leaves the state as
  the first delete left it. (The answer is \<open>{success: deleted}\<close>: the boolean that the
  spec calls \<open>removed\<close> travels under the key \<open>success\<close>.)
\<close>

theorem delete_twice:
  assumes "map_has (JStr i) (messagePool st)"
  shows "deleted (fst (deleteMessage i st))
       \<and> \<not> map_has (JStr i) (messagePool (snd (deleteMessage i st)))
       \<and> \<not> deleted (fst (deleteMessage i (snd (deleteMessage i st))))
       \<and> snd (deleteMessage i (snd (deleteMessage i st))) = snd (deleteMessage i st)"
  using assms
  by (simp add: deleteMessage_def map_has_delete map_delete_absent)

theorem delete_twice_witness:
  "map_has (JStr ''m2'') (messagePool inbox)
   \<and> fst (deleteMessage ''m2'' inbox) = DeleteJson True
   \<and> map fst (messagePool (snd (deleteMessage ''m2'' inbox))) = [JStr ''m1'', JStr ''m3'']
   \<and> fst (deleteMessage ''m2'' (snd (deleteMessage ''m2'' inbox))) = DeleteJson False
   \<and> snd (deleteMessage ''m2'' (snd (deleteMessage ''m2'' inbox))) = snd (deleteMessage ''m2'' inbox)"
proof -
  have h: "map_has (JStr ''m2'') (messagePool inbox)"
    by (simp add: inbox_eq map_has_def)
  have k: "map fst (messagePool (snd (deleteMessage ''m2'' inbox))) = [JStr ''m1'', JStr ''m3'']"
    by (simp add: inbox_eq deleteMessage_def map_delete_def)
  show ?thesis
    using h k delete_twice [OF h]
    by (simp add: deleteMessage_def)
qed

text \<open>
  C10. A pull does not look at expiry: an envelope of the pool for the recipient \<open>R\<close>
  whose expiry instant \<open>timestamp + ttl\<close> lies before \<open>now\<close>, and which the sweep at
  \<open>now\<close> would remove, is returned by a pull for \<open>R\<close> and removed from the pool by it.
\<close>

theorem pull_returns_expired:
  assumes "map_ok (messagePool st)"
    and "(k, m) \<in> set (messagePool st)"
    and "recipientContactCode m = JStr R"
    and "timestamp m + ttl m < now"
  shows "expired now (k, m)
       \<and> pulled_of k m \<in> set (messages (fst (getMessages R st)))
       \<and> \<not> map_has k (messagePool (snd (getMessages R st)))"
proof -
  have e: "expired now (k, m)" using assms(4) by (simp add: expired_def)
  have f: "for_recipient R (k, m)" using assms(3) by (simp add: for_recipient_def)
  have p: "pulled_of k m \<in> set (messages (fst (getMessages R st)))"
    using assms(2) f by (force simp: getMessages_eq [OF assms(1)])
  have "\<not> map_has k (filter (\<lambda>e. \<not> for_recipient R e) (messagePool st))"
  proof
    assume "map_has k (filter (\<lambda>e. \<not> for_recipient R e) (messagePool st))"
    then obtain m' where m': "(k, m') \<in> set (messagePool st)" "\<not> for_recipient R (k, m')"
      by (auto simp: map_has_def)
    from assms(1) assms(2) m'(1) have "m' = m"
      unfolding map_ok_def by (metis eq_key_imp_eq_value)
    with f m'(2) show False by simp
  qed
  then have q: "\<not> map_has k (messagePool (snd (getMessages R st)))"
    by (simp add: getMessages_eq [OF assms(1)])
  from e p q show ?thesis by simp
qed

theorem pull_returns_expired_witness:
  "map_ok (messagePool inbox)
   \<and> map_get (messagePool inbox) (JStr ''m3'')
       = Some \<lparr>id_msg = JStr ''m3'', recipientContactCode = JStr ''R'',
               encryptedMessage = JStr ''Z'', timestamp = 30, ttl = 1000,
               attempts = 0, maxAttempts = 3\<rparr>
   \<and> (30::int) + 1000 < 5000
   \<and> \<lparr>p_id = JStr ''m3'', p_encryptedMessage = JStr ''Z'', p_timestamp = 30\<rparr>
       \<in> set (messages (fst (getMessages ''R'' inbox)))
   \<and> \<not> map_has (JStr ''m3'') (messagePool (snd (getMessages ''R'' inbox)))"
proof -
  let ?m = "\<lparr>id_msg = JStr ''m3'', recipientContactCode = JStr ''R'',
             encryptedMessage = JStr ''Z'', timestamp = 30, ttl = 1000,
             attempts = 0, maxAttempts = 3\<rparr>"
  have h: "map_ok (messagePool inbox)"
    by (simp add: inbox_eq map_ok_def)
  have i: "(JStr ''m3'', ?m) \<in> set (messagePool inbox)"
    by (simp add: inbox_eq)
  have g: "map_get (messagePool inbox) (JStr ''m3'') = Some ?m"
    by (simp add: inbox_eq map_get_def)
  have r: "recipientContactCode ?m = JStr ''R''" by simp
  have t: "timestamp ?m + ttl ?m < 5000" by simp
  show ?thesis
    using h g pull_returns_expired [OF h i r t]
    by (simp add: pulled_of_def)
qed

end
